theory Spec2Isabelle
  imports Main "HOL-Library.Signed_Division" "HOL-Library.Multiset"
begin

section \<open>The Kanban board of gci: data model\<close>

text \<open>
  The board lives in package \<open>main\<close> (the TUI code after the smoke tests); the fuzzy
  matcher lives in package \<open>usercfg\<close>. Go's \<open>int\<close> is modelled as \<open>int\<close>: the
  quantities are list lengths, cursor positions and scores, far from the 64-bit range.
  Go strings are modelled as \<open>string\<close>; the text functions below are the ASCII part of
  Go's Unicode functions.
\<close>

subsection \<open>Tickets\<close>

text \<open>
  \<open>JiraIssue\<close>: the fields the board logic reads. \<open>iSummary\<close> is \<open>Fields.Summary\<close>,
  \<open>iSubtask\<close> is \<open>Fields.IssueType.Subtask\<close>, \<open>iParentKey\<close> is \<open>Fields.Parent.Key\<close>,
  \<open>iStatusName\<close> is \<open>Fields.Status.Name\<close>.
\<close>

record JiraIssue =
  iKey :: string
  iSummary :: string
  iSubtask :: bool
  iParentKey :: string
  iStatusName :: string

subsection \<open>Scopes\<close>

text \<open>\<open>type scopeFilter int\<close> with the four \<open>iota\<close> constants.\<close>

type_synonym scopeFilter = int

definition scopeMineOrReported :: scopeFilter where "scopeMineOrReported = 0"
definition scopeMine :: scopeFilter where "scopeMine = 1"
definition scopeReported :: scopeFilter where "scopeReported = 2"
definition scopeUnassigned :: scopeFilter where "scopeUnassigned = 3"

lemmas scope_defs = scopeMineOrReported_def scopeMine_def scopeReported_def scopeUnassigned_def

definition scopeFromString :: "string \<Rightarrow> scopeFilter" where
  "scopeFromString s =
     (if s = ''assigned_or_reported'' \<or> s = ''Assigned or Reported by Me'' then scopeMineOrReported
      else if s = ''assigned'' \<or> s = ''Assigned to Me'' then scopeMine
      else if s = ''reported'' \<or> s = ''Reported by Me'' then scopeReported
      else if s = ''unassigned'' \<or> s = ''Unassigned'' then scopeUnassigned
      else scopeMineOrReported)"

definition scopeToConfigString :: "scopeFilter \<Rightarrow> string" where
  "scopeToConfigString s =
     (if s = scopeMineOrReported then ''assigned_or_reported''
      else if s = scopeMine then ''assigned''
      else if s = scopeReported then ''reported''
      else if s = scopeUnassigned then ''unassigned''
      else ''assigned_or_reported'')"

subsection \<open>Text helpers\<close>

text \<open>
  \<open>strings.ToLower\<close> on ASCII text: the letters \<open>A\<close> to \<open>Z\<close> move to \<open>a\<close> to
  \<open>z\<close>, every other character stays.
\<close>

definition toLowerChar :: "char \<Rightarrow> char" where
  "toLowerChar c =
     (case map_of (zip ''ABCDEFGHIJKLMNOPQRSTUVWXYZ'' ''abcdefghijklmnopqrstuvwxyz'') c of
        Some l \<Rightarrow> l
      | None \<Rightarrow> c)"

definition toLower :: "string \<Rightarrow> string" where
  "toLower s = map toLowerChar s"

fun hasPrefix :: "string \<Rightarrow> string \<Rightarrow> bool" where
  "hasPrefix s [] = True"
| "hasPrefix [] (p # ps) = False"
| "hasPrefix (c # cs) (p # ps) = (c = p \<and> hasPrefix cs ps)"

text \<open>\<open>strings.Contains s substr\<close>.\<close>

fun containsStr :: "string \<Rightarrow> string \<Rightarrow> bool" where
  "containsStr [] sub = (sub = [])"
| "containsStr (c # cs) sub = (hasPrefix (c # cs) sub \<or> containsStr cs sub)"

section \<open>Grouping: \<open>reorderAndGroupIssues\<close>\<close>

text \<open>The closure \<open>isBacklog\<close>.\<close>

definition isBacklog :: "JiraIssue \<Rightarrow> bool" where
  "isBacklog it = containsStr (toLower (iStatusName it)) ''backlog''"

text \<open>
  The maps \<open>present\<close>, \<open>topSet\<close>, \<open>backlogSet\<close> and \<open>seen\<close> have the empty struct
  as value type: they are sets of keys.
\<close>

definition presentKeys :: "JiraIssue list \<Rightarrow> string set" where
  "presentKeys issues = fold (\<lambda>it present. insert (iKey it) present) issues {}"

text \<open>First loop of the To Do branch: split by status.\<close>

definition splitStep :: "JiraIssue \<Rightarrow> string set \<times> string set \<Rightarrow> string set \<times> string set" where
  "splitStep it st =
     (case st of (topSet, backlogSet) \<Rightarrow>
        if isBacklog it then (topSet, insert (iKey it) backlogSet)
        else (insert (iKey it) topSet, backlogSet))"

text \<open>Second loop of the To Do branch: promote backlog parents of tickets in \<open>topSet\<close>.\<close>

definition promoteStep ::
  "string set \<Rightarrow> JiraIssue \<Rightarrow> string set \<times> string set \<Rightarrow> string set \<times> string set" where
  "promoteStep present it st =
     (case st of (topSet, backlogSet) \<Rightarrow>
        if iKey it \<notin> topSet then (topSet, backlogSet)
        else if iSubtask it \<and> iParentKey it \<noteq> [] \<and> iParentKey it \<in> present
          then (insert (iParentKey it) topSet, backlogSet - {iParentKey it})
        else (topSet, backlogSet))"

text \<open>The pair \<open>(topSet, backlogSet)\<close> after the partition block.\<close>

definition partitionSets :: "string \<Rightarrow> JiraIssue list \<Rightarrow> string set \<times> string set" where
  "partitionSets columnTitle issues =
     (if columnTitle = ''To Do''
      then fold (promoteStep (presentKeys issues)) issues (fold splitStep issues ({}, {}))
      else (fold (\<lambda>it topSet. insert (iKey it) topSet) issues {}, {}))"

text \<open>The children test shared by \<open>appendGroup\<close> and the loops that mark \<open>seen\<close>.\<close>

definition childIn :: "string set \<Rightarrow> JiraIssue \<Rightarrow> JiraIssue \<Rightarrow> bool" where
  "childIn allow parent it \<longleftrightarrow>
     iSubtask it \<and> iParentKey it = iKey parent \<and> iKey it \<in> allow"

definition appendGroup ::
  "JiraIssue list \<Rightarrow> JiraIssue list \<Rightarrow> JiraIssue \<Rightarrow> string set \<Rightarrow> JiraIssue list" where
  "appendGroup issues dst parent allow = (dst @ [parent]) @ filter (childIn allow parent) issues"

definition markChildren ::
  "JiraIssue list \<Rightarrow> string set \<Rightarrow> JiraIssue \<Rightarrow> string set \<Rightarrow> string set" where
  "markChildren issues allow parent seen =
     fold (\<lambda>ch sn. if childIn allow parent ch then insert (iKey ch) sn else sn) issues seen"

text \<open>
  One pass over the issues for one group (\<open>topSet\<close> or \<open>backlogSet\<close>); the state is
  \<open>(seen, out)\<close>.
\<close>

fun groupPass ::
  "JiraIssue list \<Rightarrow> string set \<Rightarrow> JiraIssue list \<Rightarrow> string set \<times> JiraIssue list
     \<Rightarrow> string set \<times> JiraIssue list" where
  "groupPass issues grp [] st = st"
| "groupPass issues grp (it # rest) (seen, out) =
     (if iKey it \<notin> grp then groupPass issues grp rest (seen, out)
      else if iKey it \<in> seen then groupPass issues grp rest (seen, out)
      else if iSubtask it \<and> iParentKey it \<noteq> [] \<and> iParentKey it \<in> grp
        then groupPass issues grp rest (seen, out)
      else groupPass issues grp rest
             (markChildren issues grp it (insert (iKey it) seen), appendGroup issues out it grp))"

definition reorderAndGroupIssues :: "string \<Rightarrow> JiraIssue list \<Rightarrow> JiraIssue list" where
  "reorderAndGroupIssues columnTitle issues =
     (if issues = [] then issues
      else case partitionSets columnTitle issues of (topSet, backlogSet) \<Rightarrow>
        let st1 = groupPass issues topSet issues ({}, [])
        in if columnTitle = ''To Do''
           then snd (groupPass issues backlogSet issues st1)
           else snd st1)"

section \<open>Fuzzy matching (package \<open>usercfg\<close>)\<close>

text \<open>
  The index loop of \<open>FuzzyMatch\<close> after both strings are lower-cased: the first
  argument is the pattern from \<open>patternIdx\<close> on, the second the target from
  \<open>targetIdx\<close> on.
\<close>

fun matchLoop :: "string \<Rightarrow> string \<Rightarrow> bool" where
  "matchLoop [] target = True"
| "matchLoop (p # ps) [] = False"
| "matchLoop (p # ps) (t # ts) = (if p = t then matchLoop ps ts else matchLoop (p # ps) ts)"

definition FuzzyMatch :: "string \<Rightarrow> string \<Rightarrow> bool" where
  "FuzzyMatch pattern target =
     (if pattern = [] then True
      else if target = [] then False
      else matchLoop (toLower pattern) (toLower target))"

text \<open>
  The scoring loop of \<open>FuzzyScore\<close>: \<open>plen\<close> is \<open>len(pattern)\<close>, \<open>ps\<close> the pattern
  from \<open>patternIdx\<close> on, \<open>i\<close> the index of the current target character.
\<close>

fun scoreLoop :: "int \<Rightarrow> string \<Rightarrow> string \<Rightarrow> int \<Rightarrow> int \<Rightarrow> int \<Rightarrow> int" where
  "scoreLoop plen ps [] i consecutiveMatches score = score"
| "scoreLoop plen ps (ch # ts) i consecutiveMatches score =
     (let hit = (case ps of [] \<Rightarrow> False | p # pr \<Rightarrow> p = ch);
          ps' = (if hit then tl ps else ps);
          consecutiveMatches' = (if hit then consecutiveMatches + 1 else 0);
          score1 = (if hit then score + (10 + consecutiveMatches') else score);
          score2 = (if i > plen * 3 then score1 - 1 else score1)
      in scoreLoop plen ps' ts (i + 1) consecutiveMatches' score2)"

text \<open>Go's integer division truncates towards zero: \<open>sdiv\<close>.\<close>

definition FuzzyScore :: "string \<Rightarrow> string \<Rightarrow> int" where
  "FuzzyScore pattern target =
     (if \<not> FuzzyMatch pattern target then - 1
      else if pattern = [] then 100
      else
        let pattern' = toLower pattern;
            target' = toLower target;
            score = scoreLoop (int (length pattern')) pattern' target' 0 0 0;
            score1 = (if containsStr target' pattern' then score + 20 else score);
            maxScore = int (length pattern') * 15;
            score2 = (if score1 > maxScore then maxScore else score1)
        in (score2 * 100) sdiv maxScore)"

text \<open>\<open>unicode.IsLetter\<close> and \<open>unicode.IsDigit\<close> on ASCII text.\<close>

definition isLetter :: "char \<Rightarrow> bool" where
  "isLetter c \<longleftrightarrow>
     c \<in> set ''abcdefghijklmnopqrstuvwxyzABCDEFGHIJKLMNOPQRSTUVWXYZ''"

definition isDigit :: "char \<Rightarrow> bool" where
  "isDigit c \<longleftrightarrow> c \<in> set ''0123456789''"

definition NormalizeSearchText :: "string \<Rightarrow> string" where
  "NormalizeSearchText text =
     filter (\<lambda>r. isLetter r \<or> isDigit r \<or> r = CHR '' '' \<or> r = CHR ''-'') (toLower text)"

section \<open>Filtering: \<open>filterAndGroupColumn\<close>\<close>

record scoredIssue =
  issue :: JiraIssue
  score :: int

text \<open>The score a ticket gets in the first loop of \<open>filterAndGroupColumn\<close>.\<close>

definition bestScore :: "string \<Rightarrow> JiraIssue \<Rightarrow> int" where
  "bestScore normalizedFilter it =
     (let keyScore = FuzzyScore normalizedFilter (NormalizeSearchText (iKey it));
          summaryScore = FuzzyScore normalizedFilter (NormalizeSearchText (iSummary it))
      in if summaryScore > keyScore then summaryScore else keyScore)"

definition scoreIssues :: "string \<Rightarrow> JiraIssue list \<Rightarrow> scoredIssue list" where
  "scoreIssues normalizedFilter all =
     fold (\<lambda>it scored.
             if bestScore normalizedFilter it > 0
             then scored @ [\<lparr>issue = it, score = bestScore normalizedFilter it\<rparr>]
             else scored) all []"

text \<open>
  The sort: for every \<open>i\<close>, every later \<open>j\<close> with a strictly greater score is swapped
  into position \<open>i\<close>. \<open>sortInner\<close> is the loop over \<open>j\<close>, \<open>sortOuter\<close> the loop
  over \<open>i\<close> (\<open>i < len(scored)-1\<close> is \<open>i + 1 < len(scored)\<close>, also for the empty slice).
\<close>

function sortInner :: "nat \<Rightarrow> nat \<Rightarrow> scoredIssue list \<Rightarrow> scoredIssue list" where
  "sortInner i j scored =
     (if j < length scored
      then sortInner i (j + 1)
             (if score (scored ! j) > score (scored ! i)
              then scored[i := scored ! j, j := scored ! i]
              else scored)
      else scored)"
  by pat_completeness auto
termination
  by (relation "measure (\<lambda>(i, j, scored). length scored - j)") auto

declare sortInner.simps [simp del]

lemma length_sortInner: "length (sortInner i j scored) = length scored"
proof (induction i j scored rule: sortInner.induct)
  case (1 i j scored)
  show ?case
  proof (cases "j < length scored")
    case True
    with "1.IH" show ?thesis
      by (subst sortInner.simps) simp
  next
    case False
    then show ?thesis
      by (subst sortInner.simps) simp
  qed
qed

function sortOuter :: "nat \<Rightarrow> scoredIssue list \<Rightarrow> scoredIssue list" where
  "sortOuter i scored =
     (if i + 1 < length scored then sortOuter (i + 1) (sortInner i (i + 1) scored) else scored)"
  by pat_completeness auto
termination
  by (relation "measure (\<lambda>(i, scored). length scored - i)") (auto simp: length_sortInner)

declare sortOuter.simps [simp del]

text \<open>The list handed to the grouping step when the filter text is not empty.\<close>

definition sortedSurvivors :: "JiraIssue list \<Rightarrow> string \<Rightarrow> JiraIssue list" where
  "sortedSurvivors all flt =
     map issue (sortOuter 0 (scoreIssues (NormalizeSearchText flt) all))"

definition filterAndGroupColumn :: "string \<Rightarrow> JiraIssue list \<Rightarrow> string \<Rightarrow> JiraIssue list" where
  "filterAndGroupColumn title all flt =
     (if flt = [] then reorderAndGroupIssues title all
      else reorderAndGroupIssues title (sortedSurvivors all flt))"

section \<open>The board model\<close>

subsection \<open>State\<close>

text \<open>
  \<open>kanbanColumnView\<close>. The field \<open>issues\<close> is the displayed list (\<open>currentIssues\<close> in
  the specification); \<open>allByScope\<close> is a Go map, \<open>nil\<close> and empty both being the
  empty map.
\<close>

record kanbanColumnView =
  title :: string
  statusCategory :: string
  issues :: "JiraIssue list"
  allIssues :: "JiraIssue list"
  allByScope :: "scopeFilter \<rightharpoonup> JiraIssue list"
  cursor :: int
  offset :: int

datatype error = DeadlineExceeded | Canceled | OtherError string

record Config =
  JiraURL :: string
  Email :: string
  APIToken :: string
  Projects :: "string list"
  AllFlag :: bool
  EnableClaude :: bool
  EnableWorktrees :: bool

text \<open>
  \<open>boardModel\<close> without \<open>styles\<close> (constant after construction). The text input
  widget \<open>filterInput\<close> is kept as its current value. The field \<open>filter\<close> is
  \<open>filterTxt\<close> and \<open>Config.All\<close> is \<open>AllFlag\<close>, the plain names being HOL constants.
\<close>

record boardModel =
  cfg :: Config
  columns :: "kanbanColumnView list"
  selectedCol :: int
  loading :: bool
  err :: "error option"
  curScope :: scopeFilter
  width :: int
  height :: int
  filtering :: bool
  filterInput :: string
  filterTxt :: string
  showingHelp :: bool
  launchSetup :: bool
  helpOffset :: int
  pendingWorktree :: string
  pendingIssue :: "JiraIssue option"
  pendingClaude :: bool

subsection \<open>Viewport\<close>

definition viewportItemsHeight :: "boardModel \<Rightarrow> int" where
  "viewportItemsHeight m =
     (let reserved = (if filtering m then 5 + 2 else 5);
          avail = max 5 (height m - reserved)
      in max 1 (avail - 3))"

definition itemsWindowCount :: "boardModel \<Rightarrow> int" where
  "itemsWindowCount m =
     (let base = viewportItemsHeight m in if base \<le> 2 then 1 else base - 2)"

text \<open>
  \<open>ensureCursorVisible\<close> mutates the column through a pointer; the model returns the new
  column. Each \<open>let\<close> is one statement of the source.
\<close>

definition ensureCursorVisible :: "boardModel \<Rightarrow> kanbanColumnView \<Rightarrow> kanbanColumnView" where
  "ensureCursorVisible m c =
     (if length (issues c) = 0 then c\<lparr>offset := 0, cursor := 0\<rparr>
      else
        let n = int (length (issues c));
            c1 = (if cursor c < 0 then c\<lparr>cursor := 0\<rparr> else c);
            c2 = (if cursor c1 > n - 1 then c1\<lparr>cursor := n - 1\<rparr> else c1);
            vh = itemsWindowCount m;
            c3 = (if cursor c2 < offset c2 then c2\<lparr>offset := cursor c2\<rparr> else c2);
            c4 = (if cursor c3 \<ge> offset c3 + vh then c3\<lparr>offset := cursor c3 - vh + 1\<rparr> else c3);
            maxOffset = (if n > vh then n - vh else 0);
            c5 = (if offset c4 > maxOffset then c4\<lparr>offset := maxOffset\<rparr> else c4)
        in if offset c5 < 0 then c5\<lparr>offset := 0\<rparr> else c5)"

text \<open>
  The algorithm as the specification words it, for comparison with the code: clamp the
  cursor into \<open>[0, len-1]\<close>, pull the offset down to the cursor, push it up so that the
  cursor is inside the window, clamp the offset into \<open>[0, max(0, len - windowHeight)]\<close>; an
  empty list sets both to 0.
\<close>

definition clampInt :: "int \<Rightarrow> int \<Rightarrow> int \<Rightarrow> int" where
  "clampInt lo hi x = (if x < lo then lo else if x > hi then hi else x)"

definition ensureCursorVisible_spec :: "int \<Rightarrow> kanbanColumnView \<Rightarrow> kanbanColumnView" where
  "ensureCursorVisible_spec windowHeight c =
     (let n = int (length (issues c)) in
      if n = 0 then c\<lparr>cursor := 0, offset := 0\<rparr>
      else
        let cur = clampInt 0 (n - 1) (cursor c);
            off1 = (if cur < offset c then cur else offset c);
            off2 = (if cur \<ge> off1 + windowHeight then cur - windowHeight + 1 else off1);
            off3 = clampInt 0 (max 0 (n - windowHeight)) off2
        in c\<lparr>cursor := cur, offset := off3\<rparr>)"

subsection \<open>Messages and commands\<close>

text \<open>
  A key message is its \<open>Type\<close> (the three types the filter mode tests, or another) and
  its \<open>String()\<close>.
\<close>

datatype keyType = KeyEsc | KeyCtrlC | KeyEnter | KeyOtherType

datatype msg =
    WindowSizeMsg int int
  | KeyMsg keyType string
  | DataLoadedMsg "kanbanColumnView list"
  | LazyBatchLoadedMsg scopeFilter "int \<rightharpoonup> JiraIssue list"
  | ErrMsg error
  | OtherMsg

text \<open>
  A command is a closure run later by the runtime; the model keeps what the closure
  captured. \<open>NoCmd\<close> is \<open>nil\<close>; \<open>LoadDataCmd\<close> is the closure of \<open>loadDataCmd\<close>;
  \<open>ScopeFetchCmd\<close> is the closure returned by the key \<open>s\<close>; \<open>PrefetchCmd\<close> is the
  closure around \<open>loadScopeConcurrently\<close>; \<open>InputCmd\<close> is whatever the text input
  returns.
\<close>

datatype cmd =
    NoCmd
  | Quit
  | LoadDataCmd Config "kanbanColumnView list" scopeFilter string
  | ScopeFetchCmd Config "kanbanColumnView list" scopeFilter
  | PrefetchCmd Config "kanbanColumnView list" scopeFilter
  | InputCmd
  | Batch "cmd list"

text \<open>
  \<open>Panic\<close>: an index out of range or an integer division by zero. \<open>External\<close>: the
  branch goes on into git, the browser or the assistant, outside the board logic.
\<close>

datatype updErr = Panic | External

text \<open>
  The two library widgets the key handler calls: \<open>helpLayout\<close> (number of wrapped lines
  and viewport, from the rendered help text) and the text input's \<open>Update\<close> followed by
  \<open>Value\<close>.
\<close>

record widgets =
  helpLayoutLines :: "boardModel \<Rightarrow> int"
  helpLayoutViewport :: "boardModel \<Rightarrow> int"
  inputUpdate :: "string \<Rightarrow> keyType \<Rightarrow> string \<Rightarrow> string"

subsection \<open>Construction\<close>

definition getDefaultScope :: "string \<Rightarrow> scopeFilter" where
  "getDefaultScope defaultScope =
     (if defaultScope = ''assigned'' then scopeMine
      else if defaultScope = ''reported'' then scopeReported
      else if defaultScope = ''unassigned'' then scopeUnassigned
      else scopeMineOrReported)"

definition newColumn :: "string \<Rightarrow> kanbanColumnView" where
  "newColumn t = \<lparr>title = t, statusCategory = t, issues = [], allIssues = [],
     allByScope = Map.empty, cursor = 0, offset = 0\<rparr>"

text \<open>
  \<open>initialBoardModel\<close>; the UI preferences (\<open>LastScope\<close>, \<open>LastSelectedCol\<close>) and the
  runtime configuration's \<open>DefaultScope\<close> are arguments.
\<close>

definition initialBoardModel :: "Config \<Rightarrow> string \<Rightarrow> int \<Rightarrow> string \<Rightarrow> boardModel" where
  "initialBoardModel c lastScope lastSelectedCol defaultScope =
     \<lparr>cfg = c,
      columns = [newColumn ''To Do'', newColumn ''In Progress'', newColumn ''Done''],
      selectedCol = (if lastSelectedCol \<ge> 0 \<and> lastSelectedCol < 3 then lastSelectedCol else 0),
      loading = True,
      err = None,
      curScope = (if lastScope \<noteq> [] then scopeFromString lastScope else getDefaultScope defaultScope),
      width = 0, height = 0, filtering = False, filterInput = [], filterTxt = [],
      showingHelp = False, launchSetup = False, helpOffset = 0, pendingWorktree = [],
      pendingIssue = None, pendingClaude = False\<rparr>"

subsection \<open>\<open>Update\<close>\<close>

text \<open>\<open>currentIssue\<close>, with the two index expressions that can panic.\<close>

definition currentIssue :: "boardModel \<Rightarrow> updErr + JiraIssue option" where
  "currentIssue m =
     (if length (columns m) = 0 then Inr None
      else if selectedCol m < 0 \<or> selectedCol m \<ge> int (length (columns m)) then Inl Panic
      else
        let c = columns m ! nat (selectedCol m)
        in if length (issues c) = 0 then Inr None
           else if cursor c < 0 \<or> cursor c \<ge> int (length (issues c)) then Inl Panic
           else Inr (Some (issues c ! nat (cursor c))))"

text \<open>\<open>m.ensureCursorVisible(&m.columns[m.selectedCol])\<close>.\<close>

definition ensureSelected :: "boardModel \<Rightarrow> updErr + boardModel" where
  "ensureSelected m =
     (if selectedCol m < 0 \<or> selectedCol m \<ge> int (length (columns m)) then Inl Panic
      else
        let i = nat (selectedCol m)
        in Inr (m\<lparr>columns := (columns m)[i := ensureCursorVisible m (columns m ! i)]\<rparr>))"

text \<open>The keys \<open>j\<close>/\<open>down\<close> (\<open>d = 1\<close>) and \<open>k\<close>/\<open>up\<close> (\<open>d = -1\<close>).\<close>

definition moveCursor :: "bool \<Rightarrow> boardModel \<Rightarrow> updErr + boardModel" where
  "moveCursor down m =
     (if selectedCol m < 0 \<or> selectedCol m \<ge> int (length (columns m)) then Inl Panic
      else
        let i = nat (selectedCol m);
            col = columns m ! i;
            n = int (length (issues col))
        in if down then
             (if n > 0 \<and> cursor col < n - 1
              then Inr (m\<lparr>columns := (columns m)[i := ensureCursorVisible m (col\<lparr>cursor := cursor col + 1\<rparr>)]\<rparr>)
              else Inr m)
           else
             (if n > 0 \<and> cursor col > 0
              then Inr (m\<lparr>columns := (columns m)[i := ensureCursorVisible m (col\<lparr>cursor := cursor col - 1\<rparr>)]\<rparr>)
              else Inr m))"

text \<open>
  The keys that change the selected column: \<open>step\<close> is \<open>1\<close> for \<open>l\<close>/\<open>right\<close>/\<open>tab\<close>
  and \<open>-1 + len(m.columns)\<close> for \<open>h\<close>/\<open>left\<close>/\<open>shift+tab\<close>. Go's \<open>%\<close> truncates
  (\<open>smod\<close>) and panics on a zero divisor.
\<close>

definition switchColumn :: "int \<Rightarrow> boardModel \<Rightarrow> updErr + boardModel" where
  "switchColumn step m =
     (if length (columns m) = 0 then Inl Panic
      else ensureSelected (m\<lparr>selectedCol := (selectedCol m + step) smod int (length (columns m))\<rparr>))"

text \<open>
  The loop of the keys \<open>b\<close> and \<open>enter\<close> that jumps to the first column with a displayed
  ticket.
\<close>

definition jumpToFirstNonEmpty :: "boardModel \<Rightarrow> boardModel" where
  "jumpToFirstNonEmpty m =
     (case filter (\<lambda>i. length (issues (columns m ! i)) > 0) [0..<length (columns m)] of
        [] \<Rightarrow> m
      | i # _ \<Rightarrow> m\<lparr>selectedCol := int i,
                     columns := (columns m)[i := (columns m ! i)\<lparr>cursor := 0\<rparr>]\<rparr>)"

text \<open>
  The key \<open>s\<close>. The loop body touches only column \<open>i\<close> and the list \<open>missing\<close>, so the
  loop is a \<open>map\<close> over the columns; \<open>colsSnapshot\<close> is taken before the missing columns
  are blanked.
\<close>

definition cycleScope :: "boardModel \<Rightarrow> boardModel \<times> cmd" where
  "cycleScope m =
     (let m1 = m\<lparr>curScope := (curScope m + 1) smod 4\<rparr>;
          cols1 = map (\<lambda>c. ensureCursorVisible m1
                    (case allByScope c (curScope m1) of
                       Some data \<Rightarrow> c\<lparr>allIssues := data,
                                       issues := filterAndGroupColumn (title c) data (filterTxt m1)\<rparr>
                     | None \<Rightarrow> c)) (columns m1);
          missing = filter (\<lambda>i. allByScope (columns m1 ! i) (curScope m1) = None)
                      [0..<length (columns m1)];
          m2 = m1\<lparr>columns := cols1\<rparr>
      in if length missing = 0 then (m2, NoCmd)
         else
           let colsSnapshot = cols1
           in (m2\<lparr>columns := fold (\<lambda>i cols. cols[i := (cols ! i)\<lparr>issues := []\<rparr>]) missing cols1\<rparr>,
               ScopeFetchCmd (cfg m2) colsSnapshot (curScope m1)))"

text \<open>The key handling while the help overlay is shown.\<close>

definition helpKey :: "widgets \<Rightarrow> boardModel \<Rightarrow> string \<Rightarrow> boardModel" where
  "helpKey w m key =
     (let lines = helpLayoutLines w m;
          viewport = helpLayoutViewport w m;
          maxOffset = (if viewport < lines then lines - viewport else 0)
      in if key = ''q'' \<or> key = ''?'' \<or> key = ''esc'' then m\<lparr>showingHelp := False\<rparr>
         else if key = ''up'' \<or> key = ''k''
           then (if helpOffset m > 0 then m\<lparr>helpOffset := helpOffset m - 1\<rparr> else m)
         else if key = ''down'' \<or> key = ''j''
           then (if helpOffset m < maxOffset then m\<lparr>helpOffset := helpOffset m + 1\<rparr> else m)
         else if key = ''pgup''
           then m\<lparr>helpOffset := max 0 (helpOffset m - max 1 (viewport - 1))\<rparr>
         else if key = ''pgdown''
           then m\<lparr>helpOffset := min maxOffset (helpOffset m + max 1 (viewport - 1))\<rparr>
         else if key = ''home'' then m\<lparr>helpOffset := 0\<rparr>
         else if key = ''end'' then m\<lparr>helpOffset := maxOffset\<rparr>
         else m)"

text \<open>
  The keys \<open>b\<close> and \<open>enter\<close> up to the point where a ticket is selected; what follows
  (branch, worktree, assistant) is \<open>External\<close>.
\<close>

definition activate :: "boardModel \<Rightarrow> updErr + boardModel \<times> cmd" where
  "activate m =
     (case currentIssue m of
        Inl e \<Rightarrow> Inl e
      | Inr r \<Rightarrow>
          let m1 = (if r = None then jumpToFirstNonEmpty m else m)
          in (case currentIssue m1 of
                Inl e \<Rightarrow> Inl e
              | Inr None \<Rightarrow> Inr (m1, NoCmd)
              | Inr (Some it) \<Rightarrow> Inl External))"

definition noCmd :: "updErr + boardModel \<Rightarrow> updErr + boardModel \<times> cmd" where
  "noCmd r = (case r of Inl e \<Rightarrow> Inl e | Inr m \<Rightarrow> Inr (m, NoCmd))"

text \<open>The \<open>switch\<close> over \<open>key\<close> in normal mode, in the order of its cases.\<close>

definition normalKey :: "boardModel \<Rightarrow> string \<Rightarrow> updErr + boardModel \<times> cmd" where
  "normalKey m key =
     (if key = ''q'' \<or> key = ''ctrl+c'' then Inr (m, Quit)
      else if key = ''?'' then Inr (m\<lparr>showingHelp := \<not> showingHelp m\<rparr>, NoCmd)
      else if key = ''w'' then Inr (m\<lparr>launchSetup := True\<rparr>, Quit)
      else if key = ''s'' then Inr (cycleScope m)
      else if key = ''/'' then Inr (m\<lparr>filtering := True, filterInput := filterTxt m\<rparr>, NoCmd)
      else if key = ''o''
        then (case currentIssue m of Inl e \<Rightarrow> Inl e | Inr r \<Rightarrow> Inr (m, NoCmd))
      else if key = ''b'' then activate m
      else if key = ''enter'' then activate m
      else if key = ''r''
        then Inr (m\<lparr>loading := True\<rparr>,
                  LoadDataCmd (cfg m) (columns m) (curScope m) (filterTxt m))
      else if key = ''l'' \<or> key = ''right'' \<or> key = ''tab'' then noCmd (switchColumn 1 m)
      else if key = ''h'' \<or> key = ''left'' \<or> key = ''shift+tab''
        then noCmd (switchColumn (- 1 + int (length (columns m))) m)
      else if key = ''j'' \<or> key = ''down'' then noCmd (moveCursor True m)
      else if key = ''k'' \<or> key = ''up'' then noCmd (moveCursor False m)
      else Inr (m, NoCmd))"

text \<open>The four message handlers that do not depend on the key.\<close>

definition onWindowSize :: "boardModel \<Rightarrow> int \<Rightarrow> int \<Rightarrow> boardModel" where
  "onWindowSize m wd ht =
     (let m1 = m\<lparr>width := wd, height := ht\<rparr>
      in m1\<lparr>columns := map (ensureCursorVisible m1) (columns m1)\<rparr>)"

definition onDataLoaded :: "boardModel \<Rightarrow> kanbanColumnView list \<Rightarrow> boardModel \<times> cmd" where
  "onDataLoaded m cols =
     (let m1 = m\<lparr>loading := False, err := None, columns := cols\<rparr>;
          m2 = m1\<lparr>columns := map (ensureCursorVisible m1) (columns m1)\<rparr>;
          scopes = [scopeMineOrReported, scopeMine, scopeReported, scopeUnassigned];
          colsSnapshot = columns m2
      in (m2, Batch (map (\<lambda>sc. PrefetchCmd (cfg m2) colsSnapshot sc)
                      (filter (\<lambda>sc. sc \<noteq> curScope m2) scopes))))"

text \<open>
  \<open>lazyBatchLoadedMsg\<close>: the loop ranges over the entries of the map \<open>byIndex\<close>, skips the
  indices that are no column, and touches only the column of its index; so every column
  looks its own index up.
\<close>

definition mergeLazy ::
  "boardModel \<Rightarrow> scopeFilter \<Rightarrow> (int \<rightharpoonup> JiraIssue list) \<Rightarrow> nat \<Rightarrow> kanbanColumnView
     \<Rightarrow> kanbanColumnView" where
  "mergeLazy m sc byIndex idx c =
     (case byIndex (int idx) of
        None \<Rightarrow> c
      | Some iss \<Rightarrow>
          let c1 = c\<lparr>allByScope := (allByScope c)(sc \<mapsto> iss)\<rparr>
          in if sc = curScope m
             then ensureCursorVisible m
                    (c1\<lparr>allIssues := iss,
                        issues := filterAndGroupColumn (title c1) iss (filterTxt m)\<rparr>)
             else c1)"

definition onLazyBatchLoaded ::
  "boardModel \<Rightarrow> scopeFilter \<Rightarrow> (int \<rightharpoonup> JiraIssue list) \<Rightarrow> boardModel" where
  "onLazyBatchLoaded m sc byIndex =
     m\<lparr>columns := map (\<lambda>(idx, c). mergeLazy m sc byIndex idx c) (enumerate 0 (columns m))\<rparr>"

text \<open>The live filter update while typing in filter mode.\<close>

definition onFilterTyping :: "widgets \<Rightarrow> boardModel \<Rightarrow> keyType \<Rightarrow> string \<Rightarrow> boardModel \<times> cmd" where
  "onFilterTyping w m t key =
     (let v = inputUpdate w (filterInput m) t key;
          m1 = m\<lparr>filterInput := v, filterTxt := v\<rparr>
      in (m1\<lparr>columns := map (\<lambda>c. ensureCursorVisible m1
                 (c\<lparr>issues := filterAndGroupColumn (title c) (allIssues c) (filterTxt m1)\<rparr>))
               (columns m1)\<rparr>, InputCmd))"

definition Update :: "widgets \<Rightarrow> boardModel \<Rightarrow> msg \<Rightarrow> updErr + boardModel \<times> cmd" where
  "Update w m message =
     (case message of
        WindowSizeMsg wd ht \<Rightarrow> Inr (onWindowSize m wd ht, NoCmd)
      | KeyMsg t key \<Rightarrow>
          if showingHelp m then Inr (helpKey w m key, NoCmd)
          else if filtering m then
            (case t of
               KeyEsc \<Rightarrow> Inr (m\<lparr>filtering := False\<rparr>, NoCmd)
             | KeyCtrlC \<Rightarrow> Inr (m\<lparr>filtering := False\<rparr>, NoCmd)
             | KeyEnter \<Rightarrow> normalKey (m\<lparr>filtering := False\<rparr>) key
             | KeyOtherType \<Rightarrow> Inr (onFilterTyping w m t key))
          else normalKey m key
      | DataLoadedMsg cols \<Rightarrow> Inr (onDataLoaded m cols)
      | LazyBatchLoadedMsg sc byIndex \<Rightarrow> Inr (onLazyBatchLoaded m sc byIndex, NoCmd)
      | ErrMsg e \<Rightarrow> Inr (m\<lparr>loading := False, err := Some e\<rparr>, NoCmd)
      | OtherMsg \<Rightarrow> Inr (m, NoCmd))"

section \<open>Loaders\<close>

text \<open>
  The workers and the channel are abstracted to what the collecting \<open>select\<close> yields,
  in order: a result \<open>(index, issues, err)\<close> from the channel, or the context being
  done. The deadline always fires in the end, so a sequence that runs out is read as
  \<open>CtxDone\<close>.
\<close>

datatype arrival = Result int "JiraIssue list" "error option" | CtxDone

text \<open>
  The body of \<open>collectLoop\<close> for a successful result: \<open>columns[idx]\<close> panics out of
  range.
\<close>

definition storeResult ::
  "string \<Rightarrow> scopeFilter \<Rightarrow> int \<Rightarrow> JiraIssue list \<Rightarrow> kanbanColumnView list
     \<Rightarrow> updErr + kanbanColumnView list" where
  "storeResult flt scope idx iss cols =
     (if idx < 0 \<or> idx \<ge> int (length cols) then Inl Panic
      else
        let c = cols ! nat idx;
            c1 = c\<lparr>allIssues := iss, allByScope := (allByScope c)(scope \<mapsto> iss),
                   issues := filterAndGroupColumn (title c) iss flt\<rparr>;
            c2 = (if cursor c1 \<ge> int (length iss)
                  then (if length iss = 0 then c1\<lparr>cursor := 0\<rparr>
                        else c1\<lparr>cursor := int (length iss) - 1\<rparr>)
                  else c1)
        in Inr (cols[nat idx := c2]))"

text \<open>\<open>collectLoop\<close>: the first argument counts the iterations left.\<close>

fun collectLoop ::
  "nat \<Rightarrow> string \<Rightarrow> scopeFilter \<Rightarrow> arrival list \<Rightarrow> kanbanColumnView list \<Rightarrow> updErr + msg" where
  "collectLoop 0 flt scope arr cols = Inr (DataLoadedMsg cols)"
| "collectLoop (Suc n) flt scope [] cols = Inr (DataLoadedMsg cols)"
| "collectLoop (Suc n) flt scope (CtxDone # rest) cols = Inr (DataLoadedMsg cols)"
| "collectLoop (Suc n) flt scope (Result idx iss (Some e) # rest) cols =
     (if e = DeadlineExceeded \<or> e = Canceled then Inr (DataLoadedMsg cols)
      else Inr (ErrMsg e))"
| "collectLoop (Suc n) flt scope (Result idx iss None # rest) cols =
     (case storeResult flt scope idx iss cols of
        Inl p \<Rightarrow> Inl p
      | Inr cols' \<Rightarrow> collectLoop n flt scope rest cols')"

definition loadColumnsConcurrently ::
  "kanbanColumnView list \<Rightarrow> scopeFilter \<Rightarrow> string \<Rightarrow> arrival list \<Rightarrow> updErr + msg" where
  "loadColumnsConcurrently cols scope flt arr = collectLoop (length cols) flt scope arr cols"

text \<open>\<open>collectScopeLoop\<close>: an error result is skipped and counts as completed.\<close>

fun collectScopeLoop ::
  "nat \<Rightarrow> arrival list \<Rightarrow> (int \<rightharpoonup> JiraIssue list) \<Rightarrow> (int \<rightharpoonup> JiraIssue list)" where
  "collectScopeLoop 0 arr byIdx = byIdx"
| "collectScopeLoop (Suc n) [] byIdx = byIdx"
| "collectScopeLoop (Suc n) (CtxDone # rest) byIdx = byIdx"
| "collectScopeLoop (Suc n) (Result idx iss (Some e) # rest) byIdx =
     collectScopeLoop n rest byIdx"
| "collectScopeLoop (Suc n) (Result idx iss None # rest) byIdx =
     collectScopeLoop n rest (byIdx(idx \<mapsto> iss))"

definition loadScopeConcurrently ::
  "kanbanColumnView list \<Rightarrow> scopeFilter \<Rightarrow> arrival list \<Rightarrow> msg" where
  "loadScopeConcurrently cols scope arr =
     LazyBatchLoadedMsg scope (collectScopeLoop (length cols) arr Map.empty)"

text \<open>
  The closure returned by the key \<open>s\<close>: it calls \<open>fetchColumnIssues\<close> once for every
  column of the snapshot. \<open>scopeFetchRequests\<close> lists the calls (status category and
  scope) in order; \<open>runScopeFetch\<close> is the message, given the fetcher's answers.
\<close>

definition scopeFetchRequests :: "kanbanColumnView list \<Rightarrow> scopeFilter \<Rightarrow> (string \<times> scopeFilter) list" where
  "scopeFetchRequests colsSnapshot sc = map (\<lambda>c. (statusCategory c, sc)) colsSnapshot"

definition runScopeFetch ::
  "(string \<Rightarrow> scopeFilter \<Rightarrow> error + JiraIssue list) \<Rightarrow> kanbanColumnView list \<Rightarrow> scopeFilter
     \<Rightarrow> msg" where
  "runScopeFetch fetch colsSnapshot sc =
     LazyBatchLoadedMsg sc
       (fold (\<lambda>(i, c) byIdx.
                case fetch (statusCategory c) sc of
                  Inl e \<Rightarrow> byIdx
                | Inr iss \<Rightarrow> byIdx(int i \<mapsto> iss))
             (enumerate 0 colsSnapshot) Map.empty)"

section \<open>Scenario data\<close>

text \<open>The three tickets of the To Do scenario: active, backlog, active subtask of the second.\<close>

definition ticketA :: JiraIssue where
  "ticketA = \<lparr>iKey = ''A'', iSummary = ''first'', iSubtask = False, iParentKey = [],
     iStatusName = ''To Do''\<rparr>"

definition ticketB :: JiraIssue where
  "ticketB = \<lparr>iKey = ''B'', iSummary = ''second'', iSubtask = False, iParentKey = [],
     iStatusName = ''Backlog''\<rparr>"

definition ticketC :: JiraIssue where
  "ticketC = \<lparr>iKey = ''C'', iSummary = ''third'', iSubtask = True, iParentKey = ''B'',
     iStatusName = ''To Do''\<rparr>"

section \<open>Closed forms used in the proofs\<close>

text \<open>
  The cursor and the offset that \<open>ensureCursorVisible\<close> leaves in a column with \<open>n > 0\<close>
  displayed tickets, as functions of the old values.
\<close>

definition newCursor :: "int \<Rightarrow> int \<Rightarrow> int" where
  "newCursor n cur = (let c1 = (if cur < 0 then 0 else cur) in if c1 > n - 1 then n - 1 else c1)"

definition newOffset :: "int \<Rightarrow> int \<Rightarrow> int \<Rightarrow> int \<Rightarrow> int" where
  "newOffset n vh cur off =
     (let o1 = (if cur < off then cur else off);
          o2 = (if cur \<ge> o1 + vh then cur - vh + 1 else o1);
          maxOffset = (if n > vh then n - vh else 0);
          o3 = (if o2 > maxOffset then maxOffset else o2)
      in if o3 < 0 then 0 else o3)"

section \<open>Cursor invariant and event sequences\<close>

text \<open>The per-column invariant of the specification, for a window height.\<close>

definition cursorInv :: "int \<Rightarrow> kanbanColumnView \<Rightarrow> bool" where
  "cursorInv windowHeight c \<longleftrightarrow>
     (let n = int (length (issues c))
      in (n > 0 \<longrightarrow> 0 \<le> cursor c \<and> cursor c < n)
         \<and> offset c \<le> cursor c \<and> cursor c < offset c + windowHeight
         \<and> offset c \<le> max 0 (n - windowHeight))"

text \<open>
  The navigate, resize and refresh events: the movement and column keys, the refresh key
  \<open>r\<close>, a window size message, and the messages a load ends with: the \<open>dataLoadedMsg\<close>
  of a primary load, which carries the snapshot of the board's three columns, the
  \<open>lazyBatchLoadedMsg\<close> of a background fetch, and \<open>errMsg\<close>.
\<close>

definition navKey :: "string \<Rightarrow> bool" where
  "navKey key \<longleftrightarrow>
     key \<in> set [''up'', ''k'', ''down'', ''j'', ''left'', ''h'', ''shift+tab'',
                ''right'', ''l'', ''tab'']"

fun boardEvent :: "msg \<Rightarrow> bool" where
  "boardEvent (WindowSizeMsg wd ht) = True"
| "boardEvent (KeyMsg t key) = (navKey key \<or> key = ''r'')"
| "boardEvent (DataLoadedMsg cols) = (length cols = 3)"
| "boardEvent (LazyBatchLoadedMsg sc byIndex) = True"
| "boardEvent (ErrMsg e) = True"
| "boardEvent OtherMsg = False"

text \<open>The event loop: each message goes through \<open>Update\<close>; a panic ends the run.\<close>

fun runEvents :: "widgets \<Rightarrow> boardModel \<Rightarrow> msg list \<Rightarrow> updErr + boardModel" where
  "runEvents w m [] = Inr m"
| "runEvents w m (e # es) =
     (case Update w m e of Inl x \<Rightarrow> Inl x | Inr (m', c) \<Rightarrow> runEvents w m' es)"

text \<open>What the proof carries along: normal mode, three columns, a valid selection.\<close>

definition boardInv :: "boardModel \<Rightarrow> bool" where
  "boardInv m \<longleftrightarrow>
     \<not> showingHelp m \<and> \<not> filtering m \<and> length (columns m) = 3
     \<and> 0 \<le> selectedCol m \<and> selectedCol m < 3
     \<and> (\<forall>c \<in> set (columns m). cursorInv (itemsWindowCount m) c)"

text \<open>
  Concrete data for the scenarios: a column whose cursor and offset are stale, a run of
  events, and stand-ins for the two widgets and the configuration.
\<close>

definition scenarioColumn :: "string \<Rightarrow> kanbanColumnView" where
  "scenarioColumn t = \<lparr>title = t, statusCategory = t, issues = [ticketA, ticketB, ticketC],
     allIssues = [ticketA, ticketB, ticketC], allByScope = Map.empty, cursor = 7, offset = 5\<rparr>"

definition scenarioEvents :: "msg list" where
  "scenarioEvents =
     [WindowSizeMsg 80 24,
      DataLoadedMsg [scenarioColumn ''To Do'', scenarioColumn ''In Progress'', scenarioColumn ''Done''],
      KeyMsg KeyOtherType ''down'', KeyMsg KeyOtherType ''tab'', WindowSizeMsg 80 6,
      KeyMsg KeyOtherType ''up'']"

definition plainWidgets :: widgets where
  "plainWidgets = \<lparr>helpLayoutLines = (\<lambda>m. 30), helpLayoutViewport = (\<lambda>m. 3),
     inputUpdate = (\<lambda>v t key. v @ key)\<rparr>"

definition plainConfig :: Config where
  "plainConfig = \<lparr>JiraURL = ''https://example.atlassian.net'', Email = ''me@example.com'',
     APIToken = ''token'', Projects = [''TEST''], AllFlag = False, EnableClaude = False,
     EnableWorktrees = False\<rparr>"

text \<open>
  The requests of a command when it is the scope-fetch closure of the key \<open>s\<close>, and
  those of the command an update returned.
\<close>

fun scopeFetchesOf :: "cmd \<Rightarrow> (string \<times> scopeFilter) list" where
  "scopeFetchesOf (ScopeFetchCmd c cols sc) = scopeFetchRequests cols sc"
| "scopeFetchesOf other = []"

definition dispatchedScopeFetches :: "updErr + boardModel \<times> cmd \<Rightarrow> (string \<times> scopeFilter) list" where
  "dispatchedScopeFetches r = (case r of Inl e \<Rightarrow> [] | Inr (m, c) \<Rightarrow> scopeFetchesOf c)"

text \<open>
  A board in scope \<open>scopeMineOrReported\<close> whose To Do column already has a cache entry
  for the next scope, \<open>scopeMine\<close>, while the other two columns have none.
\<close>

definition partlyCachedBoard :: boardModel where
  "partlyCachedBoard =
     (initialBoardModel plainConfig ''assigned_or_reported'' 0 [])
       \<lparr>columns := [(newColumn ''To Do'')\<lparr>allByScope := [scopeMine \<mapsto> [ticketA]]\<rparr>,
                    (newColumn ''In Progress'')\<lparr>issues := [ticketB], allIssues := [ticketB]\<rparr>,
                    newColumn ''Done'']\<rparr>"

text \<open>The same board with a cache entry for \<open>scopeMine\<close> in every column.\<close>

definition fullyCachedBoard :: boardModel where
  "fullyCachedBoard =
     (initialBoardModel plainConfig ''assigned_or_reported'' 0 [])
       \<lparr>columns := [(newColumn ''To Do'')\<lparr>allByScope := [scopeMine \<mapsto> [ticketA, ticketB, ticketC]]\<rparr>,
                    (newColumn ''In Progress'')\<lparr>allByScope := [scopeMine \<mapsto> []]\<rparr>,
                    (newColumn ''Done'')\<lparr>allByScope := [scopeMine \<mapsto> [ticketB]]\<rparr>]\<rparr>"

section \<open>Scenario vocabulary for the loaders\<close>

text \<open>
  A result that carries tickets for a column index in range, and the index a result
  carries.
\<close>

definition arrivedOk :: "nat \<Rightarrow> arrival \<Rightarrow> bool" where
  "arrivedOk n a =
     (case a of
        Result i iss None \<Rightarrow> 0 \<le> i \<and> i < int n
      | Result i iss (Some e) \<Rightarrow> False
      | CtxDone \<Rightarrow> False)"

definition arrivalIndex :: "arrival \<Rightarrow> int option" where
  "arrivalIndex a = (case a of Result i iss e \<Rightarrow> Some i | CtxDone \<Rightarrow> None)"

text \<open>
  Three fetch tasks: the first and the third succeed, the second fails with a connection
  error.
\<close>

definition oneFailure :: "arrival list" where
  "oneFailure =
     [Result 0 [ticketA] None,
      Result 1 [] (Some (OtherError ''jira_connection'')),
      Result 2 [ticketB] None]"

definition threeColumns :: "kanbanColumnView list" where
  "threeColumns = [newColumn ''To Do'', newColumn ''In Progress'', newColumn ''Done'']"

section \<open>Persisted scope\<close>

text \<open>
  C10. For each of the four scopes, the string written to the UI preferences by
  \<open>scopeToConfigString\<close> is read back by \<open>scopeFromString\<close> as the same scope.
\<close>

theorem scope_config_roundtrip:
  "\<forall>s \<in> {scopeMineOrReported, scopeMine, scopeReported, scopeUnassigned}.
     scopeFromString (scopeToConfigString s) = s"
  by (simp add: scopeFromString_def scopeToConfigString_def scope_defs)

theorem scope_config_roundtrip_witness:
  "scopeReported \<in> {scopeMineOrReported, scopeMine, scopeReported, scopeUnassigned}
   \<and> scopeFromString (scopeToConfigString scopeReported) = scopeReported"
  using scope_config_roundtrip by simp

section \<open>Grouping: the To Do scenario\<close>

lemmas group_defs = reorderAndGroupIssues_def partitionSets_def presentKeys_def splitStep_def
  promoteStep_def markChildren_def appendGroup_def childIn_def

lemma isBacklog_tickets: "\<not> isBacklog ticketA" "isBacklog ticketB" "\<not> isBacklog ticketC"
  by (simp_all add: isBacklog_def ticketA_def ticketB_def ticketC_def toLower_def toLowerChar_def)

lemma scenario_eval:
  "reorderAndGroupIssues ''To Do'' [ticketA, ticketB, ticketC] = [ticketA, ticketB, ticketC]"
  by (simp add: group_defs isBacklog_def toLower_def toLowerChar_def
      ticketA_def ticketB_def ticketC_def)

text \<open>
  C1 as stated fails: for the list [A (active), B (backlog), C (active subtask of B)] the
  To Do grouping does not return [B, C, A].
\<close>

theorem scenario_order_counterexample:
  "reorderAndGroupIssues ''To Do'' [ticketA, ticketB, ticketC] \<noteq> [ticketB, ticketC, ticketA]"
  unfolding scenario_eval by (simp add: ticketA_def ticketB_def ticketC_def)

text \<open>
  C1, amended. For any three tickets with distinct keys, A active without parent, B backlog
  without parent and C an active subtask whose parent key is B's (non-empty) key, the
  To Do grouping of [A, B, C] is [A, B, C]: B is promoted into the active group, C is
  nested directly under B, and A, which comes first in the input, stays first.
\<close>

theorem promoted_parent_keeps_input_order:
  assumes "distinct [iKey a, iKey b, iKey c]" and "iKey b \<noteq> []"
    and "\<not> isBacklog a" and "\<not> iSubtask a"
    and "isBacklog b" and "\<not> iSubtask b"
    and "\<not> isBacklog c" and "iSubtask c" and "iParentKey c = iKey b"
  shows "reorderAndGroupIssues ''To Do'' [a, b, c] = [a, b, c]"
  using assms by (auto simp add: group_defs)

theorem promoted_parent_keeps_input_order_witness:
  "reorderAndGroupIssues ''To Do'' [ticketA, ticketB, ticketC] = [ticketA, ticketB, ticketC]"
  using promoted_parent_keeps_input_order [of ticketA ticketB ticketC] isBacklog_tickets
  by (simp add: ticketA_def ticketB_def ticketC_def)


section \<open>Viewport: \<open>ensureCursorVisible\<close>\<close>

lemma if_upd_offset:
  "(if P then c\<lparr>offset := x\<rparr> else c) = c\<lparr>offset := (if P then x else offset c)\<rparr>"
  by simp

lemma if_upd_cursor:
  "(if P then c\<lparr>cursor := x\<rparr> else c) = c\<lparr>cursor := (if P then x else cursor c)\<rparr>"
  by simp

lemma ensure_nonempty:
  "issues c \<noteq> [] \<Longrightarrow> ensureCursorVisible m c =
     c\<lparr>cursor := newCursor (int (length (issues c))) (cursor c),
       offset := newOffset (int (length (issues c))) (itemsWindowCount m)
                   (newCursor (int (length (issues c))) (cursor c)) (offset c)\<rparr>"
  unfolding ensureCursorVisible_def newCursor_def newOffset_def Let_def
  by (simp only: if_upd_offset if_upd_cursor) (simp cong: if_cong)

lemma ensure_empty: "issues c = [] \<Longrightarrow> ensureCursorVisible m c = c\<lparr>offset := 0, cursor := 0\<rparr>"
  by (simp add: ensureCursorVisible_def)

lemma itemsWindowCount_pos: "1 \<le> itemsWindowCount m"
  by (simp add: itemsWindowCount_def viewportItemsHeight_def Let_def)

lemma spec_nonempty:
  "issues c \<noteq> [] \<Longrightarrow> ensureCursorVisible_spec vh c =
     c\<lparr>cursor := newCursor (int (length (issues c))) (cursor c),
       offset := newOffset (int (length (issues c))) vh
                   (newCursor (int (length (issues c))) (cursor c)) (offset c)\<rparr>"
proof -
  assume ne: "issues c \<noteq> []"
  define n where "n = int (length (issues c))"
  have npos: "0 < n" using ne by (simp add: n_def)
  have cur: "clampInt 0 (n - 1) (cursor c) = newCursor n (cursor c)"
    using npos by (auto simp: clampInt_def newCursor_def Let_def)
  have off: "clampInt 0 (max 0 (n - vh)) o2 =
      (let maxOffset = (if n > vh then n - vh else 0);
           o3 = (if o2 > maxOffset then maxOffset else o2)
       in if o3 < 0 then 0 else o3)" for o2
    by (auto simp: clampInt_def Let_def max_def)
  show ?thesis
    using npos unfolding ensureCursorVisible_spec_def n_def [symmetric]
    by (simp add: Let_def cur off newOffset_def)
qed

text \<open>
  C6. \<open>ensureCursorVisible\<close> computes what the specified algorithm computes, with the
  window height \<open>itemsWindowCount\<close>: on a non-empty displayed list it clamps the cursor
  into \<open>[0, len-1]\<close>, lowers the offset to the cursor, raises it to
  \<open>cursor - windowHeight + 1\<close> when the cursor is at or below the window's end, and clamps
  the offset into \<open>[0, max(0, len - windowHeight)]\<close>; on an empty list it sets cursor and
  offset to 0. Nothing else in the column changes.
\<close>

theorem ensureCursorVisible_refines_spec:
  "ensureCursorVisible m c = ensureCursorVisible_spec (itemsWindowCount m) c"
proof (cases "issues c = []")
  case True
  then show ?thesis
    by (simp add: ensure_empty ensureCursorVisible_spec_def)
next
  case False
  then show ?thesis
    by (simp add: ensure_nonempty spec_nonempty)
qed


section \<open>Cursor invariant\<close>

lemma newCursor_range: "0 < n \<Longrightarrow> 0 \<le> newCursor n cur \<and> newCursor n cur < n"
  by (auto simp: newCursor_def Let_def)

lemma newOffset_props:
  assumes "0 \<le> cur" "cur < n" "1 \<le> vh"
  shows "newOffset n vh cur off \<le> cur" "cur < newOffset n vh cur off + vh"
        "newOffset n vh cur off \<le> max 0 (n - vh)"
  using assms by (auto simp: newOffset_def Let_def)

lemma cursorInv_ensure: "cursorInv (itemsWindowCount m) (ensureCursorVisible m c)"
proof (cases "issues c = []")
  case True
  then show ?thesis
    using itemsWindowCount_pos [of m] by (simp add: ensure_empty cursorInv_def)
next
  case False
  define n where "n = int (length (issues c))"
  have npos: "0 < n" using False by (simp add: n_def)
  note r = newCursor_range [OF npos, of "cursor c"]
  note o = newOffset_props [OF conjunct1 [OF r] conjunct2 [OF r] itemsWindowCount_pos [of m], of "offset c"]
  show ?thesis
    using r o False by (simp add: ensure_nonempty cursorInv_def n_def Let_def)
qed

lemma itemsWindowCount_cong:
  "height m' = height m \<Longrightarrow> filtering m' = filtering m \<Longrightarrow> itemsWindowCount m' = itemsWindowCount m"
  by (simp add: itemsWindowCount_def viewportItemsHeight_def)

lemma boardInv_initial: "boardInv (initialBoardModel c ls lc ds)"
  using itemsWindowCount_pos [of "initialBoardModel c ls lc ds"]
  by (auto simp: boardInv_def initialBoardModel_def newColumn_def cursorInv_def)

lemma update_inv:
  assumes "\<forall>c \<in> set cols. cursorInv vh c" and "i < length cols" and "cursorInv vh v"
  shows "\<forall>c \<in> set (cols[i := v]). cursorInv vh c"
  using assms by (metis insert_iff set_update_subset_insert subsetD)

lemma ensureSelected_inv:
  assumes "boardInv m"
  shows "\<exists>m'. ensureSelected m = Inr m' \<and> boardInv m'"
proof -
  let ?i = "nat (selectedCol m)"
  let ?m' = "m\<lparr>columns := (columns m)[?i := ensureCursorVisible m (columns m ! ?i)]\<rparr>"
  have sel: "0 \<le> selectedCol m" "selectedCol m < 3" "length (columns m) = 3"
    using assms by (simp_all add: boardInv_def)
  have eq: "ensureSelected m = Inr ?m'"
    using sel by (simp add: ensureSelected_def Let_def)
  have wc: "itemsWindowCount ?m' = itemsWindowCount m"
    by (rule itemsWindowCount_cong) simp_all
  have "\<forall>c \<in> set ((columns m)[?i := ensureCursorVisible m (columns m ! ?i)]).
          cursorInv (itemsWindowCount m) c"
    by (rule update_inv) (use assms sel cursorInv_ensure in \<open>auto simp: boardInv_def\<close>)
  then have "boardInv ?m'"
    using assms unfolding boardInv_def wc by simp
  with eq show ?thesis by blast
qed

lemma smod3: "0 \<le> a \<Longrightarrow> 0 \<le> a smod 3 \<and> a smod (3::int) < 3"
  by (simp add: smod_int_alt_def sgn_if)

lemma switchColumn_inv:
  assumes "boardInv m" and "0 \<le> step"
  shows "\<exists>m'. switchColumn step m = Inr m' \<and> boardInv m'"
proof -
  let ?m1 = "m\<lparr>selectedCol := (selectedCol m + step) smod 3\<rparr>"
  have len: "length (columns m) = 3" using assms by (simp add: boardInv_def)
  have nn: "0 \<le> selectedCol m + step" using assms by (simp add: boardInv_def)
  have wc: "itemsWindowCount ?m1 = itemsWindowCount m"
    by (rule itemsWindowCount_cong) simp_all
  have "boardInv ?m1"
    using assms(1) smod3 [OF nn] unfolding boardInv_def wc by simp
  from ensureSelected_inv [OF this] show ?thesis
    using len by (simp add: switchColumn_def)
qed

lemma moveCursor_inv:
  assumes "boardInv m"
  shows "\<exists>m'. moveCursor d m = Inr m' \<and> boardInv m'"
proof -
  let ?i = "nat (selectedCol m)"
  have sel: "0 \<le> selectedCol m" "selectedCol m < 3" "length (columns m) = 3"
    using assms by (simp_all add: boardInv_def)
  have step: "boardInv (m\<lparr>columns := (columns m)[?i := ensureCursorVisible m v]\<rparr>)" for v
  proof -
    let ?m' = "m\<lparr>columns := (columns m)[?i := ensureCursorVisible m v]\<rparr>"
    have wc: "itemsWindowCount ?m' = itemsWindowCount m"
      by (rule itemsWindowCount_cong) simp_all
    have "\<forall>c \<in> set ((columns m)[?i := ensureCursorVisible m v]).
            cursorInv (itemsWindowCount m) c"
      by (rule update_inv) (use assms sel cursorInv_ensure in \<open>auto simp: boardInv_def\<close>)
    then show ?thesis using assms unfolding boardInv_def wc by simp
  qed
  show ?thesis
    using sel assms step by (auto simp: moveCursor_def Let_def)
qed

lemma map_ensure_inv:
  "itemsWindowCount m1 = vh \<Longrightarrow> \<forall>c \<in> set (map (ensureCursorVisible m1) cols). cursorInv vh c"
  using cursorInv_ensure by auto

lemma onWindowSize_inv: "boardInv m \<Longrightarrow> boardInv (onWindowSize m wd ht)"
proof -
  assume a: "boardInv m"
  let ?m1 = "m\<lparr>width := wd, height := ht\<rparr>"
  let ?m2 = "?m1\<lparr>columns := map (ensureCursorVisible ?m1) (columns ?m1)\<rparr>"
  have wc: "itemsWindowCount ?m2 = itemsWindowCount ?m1"
    by (rule itemsWindowCount_cong) simp_all
  have "\<forall>c \<in> set (columns ?m2). cursorInv (itemsWindowCount ?m2) c"
    unfolding wc using cursorInv_ensure by simp
  then have "boardInv ?m2" using a by (simp add: boardInv_def)
  then show ?thesis by (simp add: onWindowSize_def Let_def)
qed

lemma onDataLoaded_inv:
  assumes "boardInv m" and "length cols = 3"
  shows "boardInv (fst (onDataLoaded m cols))"
proof -
  let ?m1 = "m\<lparr>loading := False, err := None, columns := cols\<rparr>"
  let ?m2 = "?m1\<lparr>columns := map (ensureCursorVisible ?m1) (columns ?m1)\<rparr>"
  have wc: "itemsWindowCount ?m2 = itemsWindowCount ?m1"
    by (rule itemsWindowCount_cong) simp_all
  have "\<forall>c \<in> set (columns ?m2). cursorInv (itemsWindowCount ?m2) c"
    unfolding wc using cursorInv_ensure by simp
  then have "boardInv ?m2" using assms by (simp add: boardInv_def)
  then show ?thesis by (simp add: onDataLoaded_def Let_def)
qed

lemma refresh_inv: "boardInv m \<Longrightarrow> boardInv (m\<lparr>loading := True\<rparr>)"
proof -
  assume a: "boardInv m"
  have wc: "itemsWindowCount (m\<lparr>loading := True\<rparr>) = itemsWindowCount m"
    by (rule itemsWindowCount_cong) simp_all
  show ?thesis using a unfolding boardInv_def wc by simp
qed

lemma navKey_cases:
  "navKey key \<Longrightarrow> key = ''up'' \<or> key = ''k'' \<or> key = ''down'' \<or> key = ''j'' \<or> key = ''left''
     \<or> key = ''h'' \<or> key = ''shift+tab'' \<or> key = ''right'' \<or> key = ''l'' \<or> key = ''tab''"
  by (simp add: navKey_def)

lemma normalKey_refresh:
  "normalKey m ''r'' =
     Inr (m\<lparr>loading := True\<rparr>, LoadDataCmd (cfg m) (columns m) (curScope m) (filterTxt m))"
  by (simp add: normalKey_def)

lemma normalKey_right:
  "key = ''right'' \<or> key = ''l'' \<or> key = ''tab'' \<Longrightarrow> normalKey m key = noCmd (switchColumn 1 m)"
  by (elim disjE) (simp_all add: normalKey_def)

lemma normalKey_left:
  "key = ''left'' \<or> key = ''h'' \<or> key = ''shift+tab'' \<Longrightarrow>
     normalKey m key = noCmd (switchColumn (- 1 + int (length (columns m))) m)"
  by (elim disjE) (simp_all add: normalKey_def)

lemma normalKey_down:
  "key = ''down'' \<or> key = ''j'' \<Longrightarrow> normalKey m key = noCmd (moveCursor True m)"
  by (elim disjE) (simp_all add: normalKey_def)

lemma normalKey_up:
  "key = ''up'' \<or> key = ''k'' \<Longrightarrow> normalKey m key = noCmd (moveCursor False m)"
  by (elim disjE) (simp_all add: normalKey_def)

lemma normalKey_nav:
  "navKey key \<Longrightarrow>
     normalKey m key = noCmd (switchColumn 1 m)
     \<or> normalKey m key = noCmd (switchColumn (- 1 + int (length (columns m))) m)
     \<or> normalKey m key = noCmd (moveCursor True m)
     \<or> normalKey m key = noCmd (moveCursor False m)"
  by (drule navKey_cases)
     (elim disjE; simp add: normalKey_right normalKey_left normalKey_down normalKey_up)

lemma normalKey_inv:
  assumes "boardInv m" and "navKey key \<or> key = ''r''"
  shows "\<exists>m' c. normalKey m key = Inr (m', c) \<and> boardInv m'"
proof -
  have len: "length (columns m) = 3" using assms(1) by (simp add: boardInv_def)
  have R: "\<exists>m' c. noCmd (switchColumn 1 m) = Inr (m', c) \<and> boardInv m'"
    using switchColumn_inv [OF assms(1), of 1] by (auto simp: noCmd_def)
  have L: "\<exists>m' c. noCmd (switchColumn (- 1 + int (length (columns m))) m) = Inr (m', c) \<and> boardInv m'"
    using switchColumn_inv [OF assms(1), of 2] len by (auto simp: noCmd_def)
  have D: "\<exists>m' c. noCmd (moveCursor True m) = Inr (m', c) \<and> boardInv m'"
    using moveCursor_inv [OF assms(1), of True] by (auto simp: noCmd_def)
  have U: "\<exists>m' c. noCmd (moveCursor False m) = Inr (m', c) \<and> boardInv m'"
    using moveCursor_inv [OF assms(1), of False] by (auto simp: noCmd_def)
  show ?thesis
  proof (cases "key = ''r''")
    case True
    then show ?thesis using refresh_inv [OF assms(1)] by (simp add: normalKey_refresh)
  next
    case False
    then have "navKey key" using assms(2) by simp
    from normalKey_nav [OF this, of m] show ?thesis
      using R L D U by (elim disjE) simp_all
  qed
qed

lemma mergeLazy_inv:
  assumes "cursorInv (itemsWindowCount m) c"
  shows "cursorInv (itemsWindowCount m) (mergeLazy m sc byIndex idx c)"
proof (cases "byIndex (int idx)")
  case None
  then show ?thesis using assms by (simp add: mergeLazy_def)
next
  case (Some iss)
  show ?thesis
  proof (cases "sc = curScope m")
    case True
    then show ?thesis using Some cursorInv_ensure by (simp add: mergeLazy_def Let_def)
  next
    case False
    then show ?thesis using Some assms by (simp add: mergeLazy_def Let_def cursorInv_def)
  qed
qed

lemma onLazyBatchLoaded_inv:
  assumes "boardInv m"
  shows "boardInv (onLazyBatchLoaded m sc byIndex)"
proof -
  let ?cols = "map (\<lambda>(idx, c). mergeLazy m sc byIndex idx c) (enumerate 0 (columns m))"
  let ?m' = "m\<lparr>columns := ?cols\<rparr>"
  have wc: "itemsWindowCount ?m' = itemsWindowCount m"
    by (rule itemsWindowCount_cong) simp_all
  have "\<forall>c \<in> set ?cols. cursorInv (itemsWindowCount m) c"
    using assms mergeLazy_inv by (auto simp: boardInv_def in_set_enumerate_eq)
  then have "boardInv ?m'"
    using assms unfolding boardInv_def wc by simp
  then show ?thesis by (simp add: onLazyBatchLoaded_def)
qed

lemma errMsg_inv: "boardInv m \<Longrightarrow> boardInv (m\<lparr>loading := False, err := Some e\<rparr>)"
proof -
  assume a: "boardInv m"
  have wc: "itemsWindowCount (m\<lparr>loading := False, err := Some e\<rparr>) = itemsWindowCount m"
    by (rule itemsWindowCount_cong) simp_all
  show ?thesis using a unfolding boardInv_def wc by simp
qed

lemma Update_inv:
  assumes "boardInv m" and "boardEvent e"
  shows "\<exists>m' c. Update w m e = Inr (m', c) \<and> boardInv m'"
proof (cases e)
  case (WindowSizeMsg wd ht)
  then show ?thesis using onWindowSize_inv [OF assms(1)] by (simp add: Update_def)
next
  case (KeyMsg t key)
  then have "navKey key \<or> key = ''r''" using assms(2) by simp
  from normalKey_inv [OF assms(1) this] show ?thesis
    using assms(1) KeyMsg by (simp add: Update_def boardInv_def)
next
  case (DataLoadedMsg cols)
  then have "length cols = 3" using assms(2) by simp
  from onDataLoaded_inv [OF assms(1) this] show ?thesis
    using DataLoadedMsg by (cases "onDataLoaded m cols") (simp add: Update_def)
next
  case (LazyBatchLoadedMsg sc byIndex)
  then show ?thesis using onLazyBatchLoaded_inv [OF assms(1)] by (simp add: Update_def)
next
  case (ErrMsg e)
  then show ?thesis using errMsg_inv [OF assms(1)] by (simp add: Update_def)
next
  case OtherMsg
  then show ?thesis using assms(2) by simp
qed

lemma runEvents_inv:
  "boardInv m \<Longrightarrow> \<forall>e \<in> set es. boardEvent e \<Longrightarrow> \<exists>m'. runEvents w m es = Inr m' \<and> boardInv m'"
proof (induction es arbitrary: m)
  case Nil
  then show ?case by simp
next
  case (Cons e es)
  then obtain m1 c where u: "Update w m e = Inr (m1, c)" "boardInv m1"
    using Update_inv [of m e w] by auto
  with Cons.IH [of m1] Cons.prems show ?case by simp
qed

text \<open>
  C5. From the initial board, after every event of any sequence of navigation keys
  (up, down, left, right, column switch), refresh, terminal resize and load-completion
  messages, \<open>Update\<close> returns a board (it does not panic) in which every column
  satisfies: \<open>0 \<le> cursor < len\<close> when the displayed list is non-empty,
  \<open>offset \<le> cursor < offset + windowHeight\<close>, and
  \<open>offset \<le> max(0, len - windowHeight)\<close>, for the window height \<open>itemsWindowCount\<close> of
  that board.
\<close>

theorem cursor_invariant_after_every_event:
  assumes "\<forall>e \<in> set es. boardEvent e"
  shows "\<forall>k \<le> length es. \<exists>m. runEvents w (initialBoardModel c ls lc ds) (take k es) = Inr m
             \<and> (\<forall>col \<in> set (columns m). cursorInv (itemsWindowCount m) col)"
proof (intro allI impI)
  fix k
  have "\<forall>e \<in> set (take k es). boardEvent e"
    using assms by (meson in_set_takeD)
  from runEvents_inv [OF boardInv_initial this, of w c ls lc ds]
  show "\<exists>m. runEvents w (initialBoardModel c ls lc ds) (take k es) = Inr m
             \<and> (\<forall>col \<in> set (columns m). cursorInv (itemsWindowCount m) col)"
    by (auto simp: boardInv_def)
qed

theorem cursor_invariant_after_every_event_witness:
  "\<exists>m. runEvents plainWidgets (initialBoardModel plainConfig ''assigned'' 1 []) scenarioEvents = Inr m
        \<and> list_all (cursorInv (itemsWindowCount m)) (columns m)"
proof -
  have ev: "\<forall>e \<in> set scenarioEvents. boardEvent e"
    by (simp add: scenarioEvents_def navKey_def)
  from cursor_invariant_after_every_event [OF ev, of plainWidgets plainConfig "''assigned''" 1 "[]"]
  have "\<exists>m. runEvents plainWidgets (initialBoardModel plainConfig ''assigned'' 1 [])
               (take (length scenarioEvents) scenarioEvents) = Inr m
             \<and> (\<forall>col \<in> set (columns m). cursorInv (itemsWindowCount m) col)"
    by blast
  then show ?thesis by (simp add: list_all_iff)
qed


section \<open>Cycling the scope\<close>

lemma ensure_keeps:
  "issues (ensureCursorVisible m c) = issues c"
  "allIssues (ensureCursorVisible m c) = allIssues c"
  "allByScope (ensureCursorVisible m c) = allByScope c"
  "title (ensureCursorVisible m c) = title c"
  "statusCategory (ensureCursorVisible m c) = statusCategory c"
  by (cases "issues c = []"; simp add: ensure_empty ensure_nonempty)+

lemma Update_key_s:
  "\<not> showingHelp m \<Longrightarrow> \<not> filtering m \<Longrightarrow> Update w m (KeyMsg t ''s'') = Inr (cycleScope m)"
  by (simp add: Update_def normalKey_def)

lemma blank_length:
  "length (fold (\<lambda>i cols. cols[i := (cols ! i)\<lparr>issues := []\<rparr>]) missing cols) = length cols"
  by (induction missing arbitrary: cols) simp_all

lemma blank_other:
  "i \<notin> set missing \<Longrightarrow>
     fold (\<lambda>i cols. cols[i := (cols ! i)\<lparr>issues := []\<rparr>]) missing cols ! i = cols ! i"
  by (induction missing arbitrary: cols) simp_all

lemma blank_missing:
  "i < length cols \<Longrightarrow> i \<in> set missing \<Longrightarrow>
     issues (fold (\<lambda>i cols. cols[i := (cols ! i)\<lparr>issues := []\<rparr>]) missing cols ! i) = []"
proof (induction missing arbitrary: cols)
  case Nil
  then show ?case by simp
next
  case (Cons j js)
  show ?case
  proof (cases "i \<in> set js")
    case True
    then show ?thesis using Cons.prems Cons.IH [of "cols[j := (cols ! j)\<lparr>issues := []\<rparr>]"] by simp
  next
    case False
    then have "i = j" using Cons.prems by simp
    then show ?thesis using Cons.prems False by (simp add: blank_other)
  qed
qed


lemma smod4_1: "1 smod (4::int) = 1"
  by (simp add: smod_int_alt_def)

lemma fullyCachedBoard_simps:
  "showingHelp fullyCachedBoard = False" "filtering fullyCachedBoard = False"
  "curScope fullyCachedBoard = 0" "filterTxt fullyCachedBoard = []"
  "cfg fullyCachedBoard = plainConfig"
  "columns fullyCachedBoard =
     [(newColumn ''To Do'')\<lparr>allByScope := [scopeMine \<mapsto> [ticketA, ticketB, ticketC]]\<rparr>,
      (newColumn ''In Progress'')\<lparr>allByScope := [scopeMine \<mapsto> []]\<rparr>,
      (newColumn ''Done'')\<lparr>allByScope := [scopeMine \<mapsto> [ticketB]]\<rparr>]"
  by (simp_all add: fullyCachedBoard_def initialBoardModel_def scopeFromString_def scope_defs)

lemma partlyCachedBoard_simps:
  "showingHelp partlyCachedBoard = False" "filtering partlyCachedBoard = False"
  "curScope partlyCachedBoard = 0" "filterTxt partlyCachedBoard = []"
  "cfg partlyCachedBoard = plainConfig"
  "columns partlyCachedBoard =
     [(newColumn ''To Do'')\<lparr>allByScope := [scopeMine \<mapsto> [ticketA]]\<rparr>,
      (newColumn ''In Progress'')\<lparr>issues := [ticketB], allIssues := [ticketB]\<rparr>,
      newColumn ''Done'']"
  by (simp_all add: partlyCachedBoard_def initialBoardModel_def scopeFromString_def scope_defs)

text \<open>
  C8. In normal mode, cycling to a scope for which every column has a cache entry returns
  no command (\<open>nil\<close>: nothing is fetched), moves the board to the next scope, keeps the
  filter text, and sets each column's displayed list to
  \<open>filterAndGroupColumn\<close> of the column's title, its cached list for the new scope and the
  current filter text.
\<close>

theorem cached_scope_switch_no_fetch:
  assumes "\<not> showingHelp m" and "\<not> filtering m"
    and "\<forall>c \<in> set (columns m). allByScope c ((curScope m + 1) smod 4) \<noteq> None"
  shows "\<exists>m'. Update w m (KeyMsg t ''s'') = Inr (m', NoCmd)
           \<and> curScope m' = (curScope m + 1) smod 4
           \<and> filterTxt m' = filterTxt m
           \<and> length (columns m') = length (columns m)
           \<and> (\<forall>i < length (columns m). \<forall>cached.
                 allByScope (columns m ! i) (curScope m') = Some cached \<longrightarrow>
                 issues (columns m' ! i)
                   = filterAndGroupColumn (title (columns m ! i)) cached (filterTxt m'))"
proof -
  let ?sc = "(curScope m + 1) smod 4"
  have nomiss: "filter (\<lambda>i. allByScope (columns m ! i) ?sc = None) [0..<length (columns m)] = []"
    using assms(3) by (auto simp: filter_empty_conv)
  show ?thesis
    using assms(1,2) nomiss
    by (auto simp: Update_key_s cycleScope_def Let_def ensure_keeps)
qed

theorem cached_scope_switch_no_fetch_witness:
  "\<exists>m'. Update plainWidgets fullyCachedBoard (KeyMsg KeyOtherType ''s'') = Inr (m', NoCmd)
        \<and> curScope m' = scopeMine
        \<and> issues (columns m' ! 0) = [ticketA, ticketB, ticketC]"
proof -
  have h: "\<forall>c \<in> set (columns fullyCachedBoard).
             allByScope c ((curScope fullyCachedBoard + 1) smod 4) \<noteq> None"
    by (simp add: fullyCachedBoard_simps smod4_1 newColumn_def scope_defs)
  from cached_scope_switch_no_fetch [of fullyCachedBoard plainWidgets KeyOtherType, OF _ _ h]
  obtain m' where u: "Update plainWidgets fullyCachedBoard (KeyMsg KeyOtherType ''s'') = Inr (m', NoCmd)"
    and sc: "curScope m' = (curScope fullyCachedBoard + 1) smod 4"
    and ft: "filterTxt m' = filterTxt fullyCachedBoard"
    and iss: "\<forall>i < length (columns fullyCachedBoard). \<forall>cached.
                 allByScope (columns fullyCachedBoard ! i) (curScope m') = Some cached \<longrightarrow>
                 issues (columns m' ! i)
                   = filterAndGroupColumn (title (columns fullyCachedBoard ! i)) cached (filterTxt m')"
    by (auto simp: fullyCachedBoard_simps)
  have sc1: "curScope m' = scopeMine"
    using sc by (simp add: fullyCachedBoard_simps smod4_1 scope_defs)
  have "issues (columns m' ! 0)
          = filterAndGroupColumn ''To Do'' [ticketA, ticketB, ticketC] []"
    using iss [rule_format, of 0 "[ticketA, ticketB, ticketC]"] ft
    by (simp add: sc1 fullyCachedBoard_simps newColumn_def)
  then have "issues (columns m' ! 0) = [ticketA, ticketB, ticketC]"
    by (simp add: filterAndGroupColumn_def scenario_eval)
  with u sc1 show ?thesis by blast
qed

lemma partly_eval:
  "dispatchedScopeFetches (Update plainWidgets partlyCachedBoard (KeyMsg KeyOtherType ''s''))
     = [(''To Do'', scopeMine), (''In Progress'', scopeMine), (''Done'', scopeMine)]"
  by (simp add: Update_key_s partlyCachedBoard_simps dispatchedScopeFetches_def cycleScope_def
      Let_def smod4_1 newColumn_def scope_defs scopeFetchRequests_def ensure_keeps)

text \<open>
  C4 as stated fails: on a board whose To Do column already has a cache entry for the new
  scope while the other columns have none, the dispatched command still requests the
  To Do column.
\<close>

theorem scope_fetch_refetches_cached_counterexample:
  "allByScope (columns partlyCachedBoard ! 0) scopeMine = Some [ticketA]
   \<and> (statusCategory (columns partlyCachedBoard ! 0), scopeMine)
       \<in> set (dispatchedScopeFetches
                (Update plainWidgets partlyCachedBoard (KeyMsg KeyOtherType ''s'')))"
  unfolding partly_eval by (simp add: partlyCachedBoard_simps newColumn_def)

text \<open>
  C4, amended. In normal mode, when the user cycles scope and at least one column has no
  cache entry for the new scope, the displayed list of every missing column is set empty
  and the returned command is the background fetch for the new scope over a snapshot of
  the columns: it requests every column of the board, those that already have a cache
  entry for the new scope included.
\<close>

theorem scope_fetch_covers_all_columns:
  assumes "\<not> showingHelp m" and "\<not> filtering m"
    and "\<exists>c \<in> set (columns m). allByScope c ((curScope m + 1) smod 4) = None"
  shows "\<exists>m' snap. Update w m (KeyMsg t ''s'')
                      = Inr (m', ScopeFetchCmd (cfg m) snap ((curScope m + 1) smod 4))
           \<and> length (columns m') = length (columns m)
           \<and> (\<forall>i < length (columns m).
                 allByScope (columns m ! i) ((curScope m + 1) smod 4) = None \<longrightarrow>
                 issues (columns m' ! i) = [])
           \<and> scopeFetchRequests snap ((curScope m + 1) smod 4)
               = map (\<lambda>c. (statusCategory c, (curScope m + 1) smod 4)) (columns m)"
proof -
  let ?sc = "(curScope m + 1) smod 4"
  let ?missing = "filter (\<lambda>i. allByScope (columns m ! i) ?sc = None) [0..<length (columns m)]"
  have miss: "?missing \<noteq> []"
  proof -
    from assms(3) obtain i where "i < length (columns m)" "allByScope (columns m ! i) ?sc = None"
      by (auto simp: in_set_conv_nth)
    then have "i \<in> set ?missing" by simp
    then show ?thesis by (metis empty_iff empty_set)
  qed
  have inmiss: "i < length (columns m) \<Longrightarrow> allByScope (columns m ! i) ?sc = None \<Longrightarrow> i \<in> set ?missing" for i
    by simp
  show ?thesis
    using assms(1,2) miss inmiss
    by (simp add: Update_key_s cycleScope_def Let_def blank_missing blank_length scopeFetchRequests_def
        ensure_keeps comp_def split: option.split)
qed

theorem scope_fetch_covers_all_columns_witness:
  "\<exists>m' snap. Update plainWidgets partlyCachedBoard (KeyMsg KeyOtherType ''s'')
                 = Inr (m', ScopeFetchCmd plainConfig snap scopeMine)
        \<and> issues (columns m' ! 1) = [] \<and> issues (columns m' ! 2) = []
        \<and> scopeFetchRequests snap scopeMine
            = [(''To Do'', scopeMine), (''In Progress'', scopeMine), (''Done'', scopeMine)]"
proof -
  have h: "\<exists>c \<in> set (columns partlyCachedBoard).
             allByScope c ((curScope partlyCachedBoard + 1) smod 4) = None"
    by (simp add: partlyCachedBoard_simps smod4_1 newColumn_def)
  from scope_fetch_covers_all_columns [of partlyCachedBoard plainWidgets KeyOtherType, OF _ _ h]
  show ?thesis
    by (simp add: partlyCachedBoard_simps smod4_1 newColumn_def scope_defs) fastforce
qed


section \<open>Merging a background result\<close>

text \<open>
  C7. When a background result for scope \<open>S\<close> is merged while the current scope differs
  from \<open>S\<close>, \<open>Update\<close> returns no command and a board that differs from the old one
  only in its columns; each column differs from the old one only in \<open>allByScope\<close>;
  \<open>allByScope\<close> is unchanged at every scope other than \<open>S\<close>, and at \<open>S\<close> it holds
  the list the result carries for that column's index (the old entry when the result
  carries none). So displayed issues, \<open>allIssues\<close>, cursor, offset and all other board
  state are unchanged.
\<close>

theorem prefetch_merge_other_scope_frame:
  assumes "sc \<noteq> curScope m"
  shows "\<exists>m'. Update w m (LazyBatchLoadedMsg sc byIndex) = Inr (m', NoCmd)
           \<and> m'\<lparr>columns := columns m\<rparr> = m
           \<and> length (columns m') = length (columns m)
           \<and> (\<forall>i < length (columns m).
                 (columns m' ! i)\<lparr>allByScope := allByScope (columns m ! i)\<rparr> = columns m ! i
                 \<and> (\<forall>s. s \<noteq> sc \<longrightarrow> allByScope (columns m' ! i) s = allByScope (columns m ! i) s)
                 \<and> allByScope (columns m' ! i) sc
                     = (case byIndex (int i) of
                          None \<Rightarrow> allByScope (columns m ! i) sc
                        | Some iss \<Rightarrow> Some iss))"
proof -
  have col: "mergeLazy m sc byIndex i c
               = (case byIndex (int i) of
                    None \<Rightarrow> c
                  | Some iss \<Rightarrow> c\<lparr>allByScope := (allByScope c)(sc \<mapsto> iss)\<rparr>)" for i c
    using assms by (simp add: mergeLazy_def Let_def split: option.split)
  show ?thesis
    by (simp add: Update_def onLazyBatchLoaded_def nth_enumerate_eq col split: option.split)
qed

theorem prefetch_merge_other_scope_frame_witness:
  "\<exists>m'. Update plainWidgets partlyCachedBoard
           (LazyBatchLoadedMsg scopeReported [1 \<mapsto> [ticketC]]) = Inr (m', NoCmd)
        \<and> m'\<lparr>columns := columns partlyCachedBoard\<rparr> = partlyCachedBoard
        \<and> issues (columns m' ! 1) = [ticketB]
        \<and> allByScope (columns m' ! 1) scopeReported = Some [ticketC]
        \<and> allByScope (columns m' ! 0) scopeReported = None"
proof -
  have h: "scopeReported \<noteq> curScope partlyCachedBoard"
    by (simp add: partlyCachedBoard_simps scope_defs)
  from prefetch_merge_other_scope_frame [OF h, of plainWidgets "[1 \<mapsto> [ticketC]]"]
  obtain m' where u: "Update plainWidgets partlyCachedBoard
           (LazyBatchLoadedMsg scopeReported [1 \<mapsto> [ticketC]]) = Inr (m', NoCmd)"
    and fr: "m'\<lparr>columns := columns partlyCachedBoard\<rparr> = partlyCachedBoard"
    and cols: "\<forall>i < length (columns partlyCachedBoard).
                 (columns m' ! i)\<lparr>allByScope := allByScope (columns partlyCachedBoard ! i)\<rparr>
                   = columns partlyCachedBoard ! i
                 \<and> (\<forall>s. s \<noteq> scopeReported \<longrightarrow> allByScope (columns m' ! i) s
                        = allByScope (columns partlyCachedBoard ! i) s)
                 \<and> allByScope (columns m' ! i) scopeReported
                     = (case [1 \<mapsto> [ticketC]] (int i) of
                          None \<Rightarrow> allByScope (columns partlyCachedBoard ! i) scopeReported
                        | Some iss \<Rightarrow> Some iss)"
    by blast
  have c1: "(columns m' ! 1)\<lparr>allByScope := allByScope (columns partlyCachedBoard ! 1)\<rparr>
              = columns partlyCachedBoard ! 1"
    and a1: "allByScope (columns m' ! 1) scopeReported = Some [ticketC]"
    using cols [rule_format, of 1] by (simp_all add: partlyCachedBoard_simps)
  have a0: "allByScope (columns m' ! 0) scopeReported = None"
    using cols [rule_format, of 0] by (simp add: partlyCachedBoard_simps newColumn_def scope_defs)
  have "issues ((columns m' ! 1)\<lparr>allByScope := allByScope (columns partlyCachedBoard ! 1)\<rparr>) = [ticketB]"
    unfolding c1 by (simp add: partlyCachedBoard_simps)
  then have "issues (columns m' ! 1) = [ticketB]" by simp
  with u fr a1 a0 show ?thesis by blast
qed

section \<open>One failing fetch task\<close>

lemma storeResult_ok:
  assumes "0 \<le> i" and "i < int (length cols)"
  shows "\<exists>cols'. storeResult flt sc i iss cols = Inr cols' \<and> length cols' = length cols"
  using assms by (simp add: storeResult_def Let_def)

lemma collectLoop_error:
  assumes "\<forall>a \<in> set pre. arrivedOk (length cols) a" and "length pre < n"
    and "e \<noteq> DeadlineExceeded" and "e \<noteq> Canceled"
  shows "collectLoop n flt sc (pre @ Result idx iss (Some e) # post) cols = Inr (ErrMsg e)"
  using assms
proof (induction pre arbitrary: cols n)
  case Nil
  then obtain k where "n = Suc k" by (cases n) auto
  with Nil show ?case by simp
next
  case (Cons a pre)
  then obtain k where n: "n = Suc k" by (cases n) auto
  from Cons.prems(1) obtain i tix where a: "a = Result i tix None" "0 \<le> i" "i < int (length cols)"
    by (auto simp: arrivedOk_def split: arrival.splits option.splits)
  from storeResult_ok [OF a(2,3), of flt sc tix]
  obtain cols' where s: "storeResult flt sc i tix cols = Inr cols'" "length cols' = length cols"
    by blast
  have "collectLoop k flt sc (pre @ Result idx iss (Some e) # post) cols' = Inr (ErrMsg e)"
    using Cons.prems s(2) n by (intro Cons.IH) simp_all
  then show ?case using a s n by simp
qed

lemma collectScopeLoop_absent:
  assumes "\<forall>a \<in> set arr. \<forall>iss. a \<noteq> Result idx iss None" and "byIdx idx = None"
  shows "collectScopeLoop n arr byIdx idx = None"
  using assms
proof (induction n arr byIdx rule: collectScopeLoop.induct)
  case (5 n i iss rest byIdx)
  from "5.prems" have ne: "i \<noteq> idx" by auto
  have "collectScopeLoop n rest (byIdx(i \<mapsto> iss)) idx = None"
    using "5.prems" ne by (intro "5.IH") simp_all
  then show ?case by simp
qed simp_all

lemma collectScopeLoop_dom:
  "k \<in> dom byIdx \<Longrightarrow> k \<in> dom (collectScopeLoop n arr byIdx)"
  by (induction n arr byIdx rule: collectScopeLoop.induct) auto

lemma collectScopeLoop_stores:
  assumes "\<forall>a \<in> set pre. arrivedOk m a" and "length pre < n" and "Result i iss None \<in> set pre"
  shows "i \<in> dom (collectScopeLoop n (pre @ rest) byIdx)"
  using assms
proof (induction pre arbitrary: n byIdx)
  case Nil
  then show ?case by simp
next
  case (Cons a pre)
  then obtain k where n: "n = Suc k" by (cases n) auto
  from Cons.prems(1) obtain j js where a: "a = Result j js None"
    by (auto simp: arrivedOk_def split: arrival.splits option.splits)
  show ?case
  proof (cases "Result i iss None \<in> set pre")
    case True
    with Cons.prems n have "i \<in> dom (collectScopeLoop k (pre @ rest) (byIdx(j \<mapsto> js)))"
      by (intro Cons.IH) simp_all
    then show ?thesis using a n by simp
  next
    case False
    then have "a = Result i iss None" using Cons.prems(3) by simp
    then have "i \<in> dom (byIdx(j \<mapsto> js))" using a by simp
    from collectScopeLoop_dom [OF this] show ?thesis using a n by simp
  qed
qed

text \<open>
  C9. Let the collector receive, before any deadline, successful results for columns in
  range and then the result of a task that failed with a non-timeout error, within its
  \<open>len(columns)\<close> iterations, each task sending one result. The primary loader
  \<open>loadColumnsConcurrently\<close> then returns the error message with that task's error.
  The background loader \<open>loadScopeConcurrently\<close> on the same arrivals returns its
  message, in whose map the failed column's index is absent and the indices of the
  results received before the failure are present.
\<close>

theorem one_failed_task_primary_error_prefetch_absent:
  assumes "arr = pre @ Result idx iss (Some (OtherError e)) # post"
    and "\<forall>a \<in> set pre. arrivedOk (length cols) a"
    and "length pre < length cols"
    and "\<forall>a \<in> set (pre @ post). arrivalIndex a \<noteq> Some idx"
  shows "loadColumnsConcurrently cols scope flt arr = Inr (ErrMsg (OtherError e))
         \<and> (\<exists>byIdx. loadScopeConcurrently cols scope arr = LazyBatchLoadedMsg scope byIdx
                \<and> byIdx idx = None
                \<and> (\<forall>i tix. Result i tix None \<in> set pre \<longrightarrow> i \<in> dom byIdx))"
proof -
  have prim: "loadColumnsConcurrently cols scope flt arr = Inr (ErrMsg (OtherError e))"
    unfolding loadColumnsConcurrently_def assms(1)
    by (rule collectLoop_error) (use assms(2,3) in simp_all)
  have noidx: "\<forall>a \<in> set arr. \<forall>tix. a \<noteq> Result idx tix None"
  proof (intro ballI allI notI)
    fix a tix
    assume a: "a \<in> set arr" "a = Result idx tix None"
    then have "a \<in> set (pre @ post)" unfolding assms(1) by auto
    with assms(4) have "arrivalIndex a \<noteq> Some idx" by blast
    with a(2) show False by (simp add: arrivalIndex_def)
  qed
  have absent: "collectScopeLoop (length cols) arr Map.empty idx = None"
    by (rule collectScopeLoop_absent [OF noidx]) simp
  have stored: "\<forall>i tix. Result i tix None \<in> set pre \<longrightarrow>
                  i \<in> dom (collectScopeLoop (length cols) arr Map.empty)"
    unfolding assms(1) using collectScopeLoop_stores [OF assms(2,3)] by blast
  show ?thesis
    using prim absent stored by (simp add: loadScopeConcurrently_def)
qed

theorem one_failed_task_primary_error_prefetch_absent_witness:
  "loadColumnsConcurrently threeColumns scopeMine [] oneFailure
     = Inr (ErrMsg (OtherError ''jira_connection''))
   \<and> (\<exists>byIdx. loadScopeConcurrently threeColumns scopeMine oneFailure
                 = LazyBatchLoadedMsg scopeMine byIdx
               \<and> byIdx 1 = None \<and> 0 \<in> dom byIdx)"
proof -
  have a: "oneFailure = [Result 0 [ticketA] None]
             @ Result 1 [] (Some (OtherError ''jira_connection'')) # [Result 2 [ticketB] None]"
    by (simp add: oneFailure_def)
  have b: "\<forall>a \<in> set [Result 0 [ticketA] None]. arrivedOk (length threeColumns) a"
    by (simp add: arrivedOk_def threeColumns_def)
  have c: "length [Result 0 [ticketA] None] < length threeColumns"
    by (simp add: threeColumns_def)
  have d: "\<forall>a \<in> set ([Result 0 [ticketA] None] @ [Result 2 [ticketB] None]).
             arrivalIndex a \<noteq> Some 1"
    by (simp add: arrivalIndex_def)
  from one_failed_task_primary_error_prefetch_absent [OF a b c d, of scopeMine "[]"] show ?thesis by auto
qed

end
